theory Spec2Isabelle
  imports Main
begin

section \<open>Values, frames and errors\<close>

text \<open>
  The two modules of \<^verbatim>\<open>polars_utils\<close>, \<^verbatim>\<open>mappings/move_col.py\<close> and
  \<^verbatim>\<open>mappings/map_col.py\<close>, are thin wrappers around the polars data-frame library.
  The Python functions are embedded as HOL functions; the polars and Python primitives
  they call are embedded by their documented behaviour, each under the name it has in
  the source.

  A cell of a frame is a Python value. \<open>PNone\<close> is Python's \<^verbatim>\<open>None\<close>, which is also
  how polars hands out a null cell. \<open>PSeq\<close> is a list or tuple, \<open>PRec\<close> the dictionary
  that polars passes to a function applied to a struct row.
\<close>

datatype pyval =
    PNone
  | PInt int
  | PStr string
  | PSeq "pyval list"
  | PRec "(string \<times> pyval) list"

text \<open>
  Exceptions are values. \<open>ValueError\<close> and \<open>NotImplementedError\<close> are raised by the
  source itself; \<open>IndexError\<close>, \<open>OverflowError\<close>, \<open>TypeError\<close> and \<open>KeyError\<close> come
  from Python's list and subscript operations; \<open>ColumnNotFoundError\<close> and
  \<open>DuplicateError\<close> come from polars. The specification's names \<^verbatim>\<open>InvalidArgument\<close>, \<^verbatim>\<open>NotImplemented\<close> and
  \<^verbatim>\<open>IndexOutOfRange\<close> stand for \<open>ValueError\<close>, \<open>NotImplementedError\<close> and
  \<open>IndexError\<close>; the source has no exception that corresponds to \<^verbatim>\<open>ShapeMismatch\<close>.
\<close>

datatype error =
    ValueError
  | NotImplementedError
  | IndexError
  | OverflowError
  | TypeError
  | KeyError
  | ColumnNotFoundError
  | DuplicateError

text \<open>
  A polars column has one data type. \<open>has_dtype t v\<close> says that the value \<open>v\<close> can
  stand in a column of type \<open>t\<close>: a null can stand in any column, an integer in an
  \<open>Int64\<close> column when it fits 64 bits, a string in a \<open>Utf8\<close> column, and a list in a
  \<open>ListOf t\<close> column when its elements can stand in a column of type \<open>t\<close>. What
  polars does with values that are not of one type (it converts some and refuses
  others) is outside the model: the operations below are those of polars on values of
  one type, and every property of a column they build assumes \<open>has_dtype\<close> of its
  values.
\<close>

datatype dtype = Int64 | Utf8 | ListOf dtype

fun has_dtype :: "dtype \<Rightarrow> pyval \<Rightarrow> bool" where
  "has_dtype t PNone = True"
| "has_dtype Int64 (PInt n) = (- (2 ^ 63) \<le> n \<and> n < 2 ^ 63)"
| "has_dtype Utf8 (PStr s) = True"
| "has_dtype (ListOf t) (PSeq xs) = list_all (has_dtype t) xs"
| "has_dtype t v = False"

text \<open>
  A frame is the ordered list of its named columns. polars keeps the column names of a
  frame distinct and all columns of one length; \<open>wf_frame\<close> states the first invariant,
  which is the one the column mover depends on.
\<close>

type_synonym column = "string \<times> pyval list"
type_synonym frame = "column list"

definition columns :: "frame \<Rightarrow> string list" where
  "columns df = map fst df"

definition wf_frame :: "frame \<Rightarrow> bool" where
  "wf_frame df = distinct (columns df)"

definition height :: "frame \<Rightarrow> nat" where
  "height df = (case df of [] \<Rightarrow> 0 | (name, vs) # rest \<Rightarrow> length vs)"

text \<open>\<^verbatim>\<open>df[col_name]\<close> and \<^verbatim>\<open>pl.col(col_name)\<close>: the column of that name, or
  \<open>ColumnNotFoundError\<close>.\<close>

definition get_column :: "frame \<Rightarrow> string \<Rightarrow> error + pyval list" where
  "get_column df col_name =
     (case map_of df col_name of
        None \<Rightarrow> Inl ColumnNotFoundError
      | Some vs \<Rightarrow> Inr vs)"

section \<open>The column mover\<close>

text \<open>
  A list index is handed to CPython as a C \<^verbatim>\<open>Py_ssize_t\<close>, 64 bits wide on a 64-bit
  build. An integer that does not fit raises \<open>OverflowError\<close>.
\<close>

definition fits_ssize_t :: "int \<Rightarrow> bool" where
  "fits_ssize_t i = (- (2 ^ 63) \<le> i \<and> i < 2 ^ 63)"

text \<open>
  \<^verbatim>\<open>list.pop(i)\<close>: a negative index counts from the end. An index outside
  \<open>-n \<le> i < n\<close> raises \<open>IndexError\<close> when it fits a \<^verbatim>\<open>Py_ssize_t\<close> and
  \<open>OverflowError\<close> when it does not. The result is the removed element and the
  remaining list. (CPython converts the index before it looks at the list. A list has
  fewer than \<open>2 ^ 63\<close> elements, so an index inside \<open>-n \<le> i < n\<close> always fits, and no
  call tells the order of the two tests apart.)
\<close>

definition list_pop :: "'a list \<Rightarrow> int \<Rightarrow> error + ('a \<times> 'a list)" where
  "list_pop xs i =
     (let n = int (length xs);
          k = (if i < 0 then i + n else i)
      in if 0 \<le> k \<and> k < n
         then Inr (xs ! nat k, take (nat k) xs @ drop (Suc (nat k)) xs)
         else if fits_ssize_t i then Inl IndexError
         else Inl OverflowError)"

text \<open>
  \<^verbatim>\<open>list.insert(i, x)\<close>: a negative index counts from the end, and the position is
  then clamped to \<open>0 \<le> k \<le> n\<close>, so that no index that fits a \<^verbatim>\<open>Py_ssize_t\<close> raises.
  An index that does not fit raises \<open>OverflowError\<close>. (As for \<^verbatim>\<open>pop\<close>, an index that
  is a position of the list always fits.)
\<close>

definition list_insert :: "'a list \<Rightarrow> int \<Rightarrow> 'a \<Rightarrow> error + 'a list" where
  "list_insert xs i x =
     (let n = int (length xs);
          w = (if i < 0 then i + n else i);
          k = (if w < 0 then 0 else if n < w then n else w)
      in if fits_ssize_t i \<or> (0 \<le> w \<and> w \<le> n)
         then Inr (take (nat k) xs @ x # drop (nat k) xs)
         else Inl OverflowError)"

text \<open>
  \<^verbatim>\<open>df.select(names)\<close>: the columns of those names, in that order. A name that is not
  a column raises \<open>ColumnNotFoundError\<close>, a name selected twice \<open>DuplicateError\<close>.
\<close>

fun select_columns :: "frame \<Rightarrow> string list \<Rightarrow> error + frame" where
  "select_columns df [] = Inr []"
| "select_columns df (name # names) =
     (case map_of df name of
        None \<Rightarrow> Inl ColumnNotFoundError
      | Some vs \<Rightarrow>
          (case select_columns df names of
             Inl e \<Rightarrow> Inl e
           | Inr cs \<Rightarrow> Inr ((name, vs) # cs)))"

definition select :: "frame \<Rightarrow> string list \<Rightarrow> error + frame" where
  "select df names =
     (if distinct names then select_columns df names else Inl DuplicateError)"

text \<open>
  \<^verbatim>\<open>move_col\<close> (move\_col.py, lines 16 to 19). \<^verbatim>\<open>df.columns\<close> is a fresh list, so
  popping from it and inserting into it leaves \<open>df\<close> as it was. \<^verbatim>\<open>insert\<close> changes
  the list \<^verbatim>\<open>columns\<close> in place; \<open>cols'\<close> is that list after the insertion.
\<close>

definition move_col :: "frame \<Rightarrow> int \<Rightarrow> int \<Rightarrow> error + frame" where
  "move_col df col_from_id col_to_id =
     (case list_pop (columns df) col_from_id of
        Inl e \<Rightarrow> Inl e
      | Inr (last_col, cols) \<Rightarrow>
          (case list_insert cols col_to_id last_col of
             Inl e \<Rightarrow> Inl e
           | Inr cols' \<Rightarrow> select df cols'))"

text \<open>
  The specification's words for the move, on positions that are natural numbers:
  remove the element at a position, insert an element at a position.
\<close>

fun spec_remove_at :: "nat \<Rightarrow> 'a list \<Rightarrow> 'a list" where
  "spec_remove_at i [] = []"
| "spec_remove_at 0 (x # xs) = xs"
| "spec_remove_at (Suc i) (x # xs) = x # spec_remove_at i xs"

fun spec_insert_at :: "nat \<Rightarrow> 'a \<Rightarrow> 'a list \<Rightarrow> 'a list" where
  "spec_insert_at 0 y xs = y # xs"
| "spec_insert_at (Suc j) y [] = [y]"
| "spec_insert_at (Suc j) y (x # xs) = x # spec_insert_at j y xs"

section \<open>The column mapper\<close>

text \<open>
  The dynamically typed arguments. \<^verbatim>\<open>map_from\<close> and \<^verbatim>\<open>map_to\<close> are annotated
  \<^verbatim>\<open>Union[str, List[str]]\<close>. \<^verbatim>\<open>mapping\<close> is a dictionary, a callable, or (outside
  its annotation, but not excluded by the \<^verbatim>\<open>isinstance\<close> tests) some other object.
  A callable is a pure, total function on values.
\<close>

datatype colarg = Str string | StrList "string list"

datatype rule =
    Dict "pyval \<rightharpoonup> pyval"
  | Callable "pyval \<Rightarrow> pyval"
  | OtherRule

text \<open>
  \<^verbatim>\<open>Expr.map_dict(dictionary, default=default)\<close>: each value is replaced by its entry
  in the dictionary, or by the default where it has none. This is the result for keys
  of the column's type and for values and a default of one type, which then is the
  type of the new column.
\<close>

definition map_dict :: "(pyval \<rightharpoonup> pyval) \<Rightarrow> pyval \<Rightarrow> pyval list \<Rightarrow> pyval list" where
  "map_dict dictionary default_v vs =
     map (\<lambda>x. case dictionary x of Some y \<Rightarrow> y | None \<Rightarrow> default_v) vs"

text \<open>
  \<^verbatim>\<open>Series.map_elements(function)\<close>, and \<^verbatim>\<open>Expr.apply(function)\<close>, its older name:
  the function is applied to each value. Both have the parameter \<^verbatim>\<open>skip_nulls=True\<close>,
  which the source leaves at its default: a null is not passed to the function and
  stays null. This is the result for a function whose results are of one type, which
  then is the type of the new Series.
\<close>

definition map_elements :: "(pyval \<Rightarrow> pyval) \<Rightarrow> pyval list \<Rightarrow> pyval list" where
  "map_elements function vs =
     map (\<lambda>x. if x = PNone then PNone else function x) vs"

text \<open>
  \<^verbatim>\<open>Expr.alias(name)\<close> takes a string; any other object is refused with
  \<open>TypeError\<close> when the expression is built, before a frame is looked at.
\<close>

definition expr_alias :: "colarg \<Rightarrow> error + string" where
  "expr_alias name = (case name of Str s \<Rightarrow> Inr s | StrList ss \<Rightarrow> Inl TypeError)"

text \<open>
  Adding one named column: a column of that name is replaced where it stands, a new
  name is appended after the last column. This is what \<^verbatim>\<open>df.with_columns\<close> does for
  each column it is given, and also what Python's \<^verbatim>\<open>d[key] = value\<close> does to the
  insertion order of a dictionary.
\<close>

fun upsert :: "string \<Rightarrow> 'v \<Rightarrow> (string \<times> 'v) list \<Rightarrow> (string \<times> 'v) list" where
  "upsert name v [] = [(name, v)]"
| "upsert name v ((name', v') # rest) =
     (if name' = name then (name, v) # rest else (name', v') # upsert name v rest)"

definition with_columns :: "frame \<Rightarrow> column list \<Rightarrow> frame" where
  "with_columns df new = fold (\<lambda>(name, vs). upsert name vs) new df"

text \<open>\<^verbatim>\<open>_map_col_dict\<close> (map\_col.py, lines 102 to 104). The leading underscore of
  the helpers' names is dropped. \<^verbatim>\<open>new_col_name\<close> is whatever \<^verbatim>\<open>map_col\<close> was given
  as \<^verbatim>\<open>map_to\<close>.\<close>

definition map_col_dict ::
  "frame \<Rightarrow> string \<Rightarrow> colarg \<Rightarrow> (pyval \<rightharpoonup> pyval) \<Rightarrow> pyval \<Rightarrow> error + frame" where
  "map_col_dict df col_name new_col_name dictionary default_v =
     (case expr_alias new_col_name of
        Inl e \<Rightarrow> Inl e
      | Inr new \<Rightarrow>
          (case get_column df col_name of
             Inl e \<Rightarrow> Inl e
           | Inr vs \<Rightarrow> Inr (with_columns df [(new, map_dict dictionary default_v vs)])))"

text \<open>\<^verbatim>\<open>_map_1to1_function\<close> (lines 126 to 128).\<close>

definition map_1to1_function ::
  "frame \<Rightarrow> string \<Rightarrow> string \<Rightarrow> (pyval \<Rightarrow> pyval) \<Rightarrow> error + frame" where
  "map_1to1_function df col_name new_col_name function =
     (case get_column df col_name of
        Inl e \<Rightarrow> Inl e
      | Inr vs \<Rightarrow> Inr (with_columns df [(new_col_name, map_elements function vs)]))"

text \<open>
  \<^verbatim>\<open>res[i]\<close> for \<open>i \<ge> 0\<close>, where \<open>res\<close> is a row of the Series of results. The row of
  a list is again a Series, of the list's elements; subscripting it gives element \<open>i\<close>
  and raises past its end. A string is indexed likewise, a dictionary has no integer
  key, and nothing else can be subscripted. The model names the exceptions as Python
  does for its own sequences; the properties below rely only on which subscripts
  raise, not on the class of the exception.
\<close>

fun getitem :: "pyval \<Rightarrow> nat \<Rightarrow> error + pyval" where
  "getitem (PSeq xs) i = (if i < length xs then Inr (xs ! i) else Inl IndexError)"
| "getitem (PStr s) i = (if i < length s then Inr (PStr [s ! i]) else Inl IndexError)"
| "getitem (PRec kvs) i = Inl KeyError"
| "getitem (PInt n) i = Inl TypeError"
| "getitem PNone i = Inl TypeError"

text \<open>\<^verbatim>\<open>[res[i] for res in results]\<close>: stops at the first row that raises.\<close>

fun getitems :: "pyval list \<Rightarrow> nat \<Rightarrow> error + pyval list" where
  "getitems [] i = Inr []"
| "getitems (res # results) i =
     (case getitem res i of
        Inl e \<Rightarrow> Inl e
      | Inr v \<Rightarrow>
          (case getitems results i of
             Inl e \<Rightarrow> Inl e
           | Inr vs \<Rightarrow> Inr (v # vs)))"

text \<open>
  The dictionary comprehension of line 151, as a loop over the indices
  \<^verbatim>\<open>range(len(new_col_names))\<close> that accumulates the dictionary \<open>acc\<close>.
\<close>

fun new_columns ::
  "string list \<Rightarrow> pyval list \<Rightarrow> nat list \<Rightarrow> column list \<Rightarrow> error + column list" where
  "new_columns new_col_names results [] acc = Inr acc"
| "new_columns new_col_names results (i # idxs) acc =
     (case getitems results i of
        Inl e \<Rightarrow> Inl e
      | Inr vs \<Rightarrow> new_columns new_col_names results idxs (upsert (new_col_names ! i) vs acc))"

text \<open>\<^verbatim>\<open>_map_1ton_function\<close> (lines 150 to 153).\<close>

definition map_1ton_function ::
  "frame \<Rightarrow> string \<Rightarrow> string list \<Rightarrow> (pyval \<Rightarrow> pyval) \<Rightarrow> error + frame" where
  "map_1ton_function df col_name new_col_names function =
     (case get_column df col_name of
        Inl e \<Rightarrow> Inl e
      | Inr vs \<Rightarrow>
          (case new_columns new_col_names (map_elements function vs)
                  [0 ..< length new_col_names] [] of
             Inl e \<Rightarrow> Inl e
           | Inr new \<Rightarrow> Inr (with_columns df new)))"

text \<open>
  \<^verbatim>\<open>pl.struct(col_names)\<close>: one record per row, holding the row's values of the named
  columns in the order given.
\<close>

definition struct :: "frame \<Rightarrow> string list \<Rightarrow> error + pyval list" where
  "struct df col_names =
     (case select df col_names of
        Inl e \<Rightarrow> Inl e
      | Inr cs \<Rightarrow>
          Inr (map (\<lambda>i. PRec (map (\<lambda>(name, vs). (name, vs ! i)) cs)) [0 ..< height df]))"

text \<open>\<^verbatim>\<open>_map_nto1_function\<close> (lines 175 to 177).\<close>

definition map_nto1_function ::
  "frame \<Rightarrow> string list \<Rightarrow> string \<Rightarrow> (pyval \<Rightarrow> pyval) \<Rightarrow> error + frame" where
  "map_nto1_function df col_names new_col_name function =
     (case struct df col_names of
        Inl e \<Rightarrow> Inl e
      | Inr rows \<Rightarrow> Inr (with_columns df [(new_col_name, map_elements function rows)]))"

text \<open>\<^verbatim>\<open>_map_ntom_function\<close> (line 199).\<close>

definition map_ntom_function ::
  "frame \<Rightarrow> string list \<Rightarrow> string list \<Rightarrow> (pyval \<Rightarrow> pyval) \<Rightarrow> error + frame" where
  "map_ntom_function df col_names new_col_names function = Inl NotImplementedError"

text \<open>
  \<^verbatim>\<open>map_col\<close> (lines 47 to 78). A call that returns a frame gives \<open>Inr (Some frame)\<close>.
  Where no branch of the \<^verbatim>\<open>if\<close> chain is taken the Python function runs off its end
  and returns \<^verbatim>\<open>None\<close>, which is \<open>Inr None\<close>.
\<close>

definition returned :: "error + frame \<Rightarrow> error + frame option" where
  "returned r = (case r of Inl e \<Rightarrow> Inl e | Inr df \<Rightarrow> Inr (Some df))"

definition map_col ::
  "frame \<Rightarrow> colarg \<Rightarrow> colarg \<Rightarrow> rule \<Rightarrow> pyval \<Rightarrow> error + frame option" where
  "map_col df map_from map_to mapping default_v =
     (case mapping of
        Dict dictionary \<Rightarrow>
          (case map_from of
             StrList col_names \<Rightarrow> Inl ValueError
           | Str col_name \<Rightarrow>
               returned (map_col_dict df col_name map_to dictionary default_v))
      | Callable function \<Rightarrow>
          (case map_from of
             Str col_name \<Rightarrow>
               (case map_to of
                  Str new_col_name \<Rightarrow>
                    returned (map_1to1_function df col_name new_col_name function)
                | StrList new_col_names \<Rightarrow>
                    returned (map_1ton_function df col_name new_col_names function))
           | StrList col_names \<Rightarrow>
               (case map_to of
                  Str new_col_name \<Rightarrow>
                    returned (map_nto1_function df col_names new_col_name function)
                | StrList new_col_names \<Rightarrow>
                    returned (map_ntom_function df col_names new_col_names function)))
      | OtherRule \<Rightarrow> Inr None)"

text \<open>
  For stating what the 1-to-N mode does with the results of the function: whether a
  value is a sequence (a list or tuple), and its elements.
\<close>

fun is_seq :: "pyval \<Rightarrow> bool" where
  "is_seq (PSeq xs) = True"
| "is_seq v = False"

fun seq_items :: "pyval \<Rightarrow> pyval list" where
  "seq_items (PSeq xs) = xs"
| "seq_items v = []"

section \<open>Example data\<close>

text \<open>A frame of four columns and two rows, with a null in column \<open>C\<close>.\<close>

definition frame_abcd :: frame where
  "frame_abcd =
     [(''A'', [PInt 1, PInt 2]), (''B'', [PStr ''x'', PStr ''y'']),
      (''C'', [PNone, PInt 0]), (''D'', [PInt 7, PInt 8])]"

text \<open>A frame in which the target column \<open>b\<close> exists already and stands first.\<close>

definition frame_ba :: frame where
  "frame_ba = [(''b'', [PInt 9, PInt 9]), (''a'', [PInt 1, PInt 2])]"

text \<open>A frame whose column \<open>a\<close> has a null in its second row.\<close>

definition frame_null :: frame where
  "frame_null = [(''a'', [PInt 1, PNone])]"

text \<open>A dictionary with the single entry \<^verbatim>\<open>{1: "one"}\<close>, and two functions:
  \<^verbatim>\<open>lambda x: 0\<close> and \<^verbatim>\<open>lambda x: (x, x, x)\<close>.\<close>

definition dict_example :: "pyval \<rightharpoonup> pyval" where
  "dict_example = map_of [(PInt 1, PStr ''one'')]"

fun const_zero :: "pyval \<Rightarrow> pyval" where
  "const_zero x = PInt 0"

fun triple :: "pyval \<Rightarrow> pyval" where
  "triple x = PSeq [x, x, x]"

section \<open>Lists: removing and inserting at a position\<close>

lemma spec_remove_at_take_drop: "spec_remove_at i xs = take i xs @ drop (Suc i) xs"
  by (induction i xs rule: spec_remove_at.induct) simp_all

lemma spec_insert_at_take_drop: "spec_insert_at j y xs = take j xs @ y # drop j xs"
  by (induction j y xs rule: spec_insert_at.induct) simp_all

lemma list_pop_valid:
  "0 \<le> i \<Longrightarrow> i < int (length xs) \<Longrightarrow>
   list_pop xs i = Inr (xs ! nat i, spec_remove_at (nat i) xs)"
  by (simp add: list_pop_def spec_remove_at_take_drop)

lemma list_insert_valid:
  "0 \<le> j \<Longrightarrow> j \<le> int (length xs) \<Longrightarrow>
   list_insert xs j y = Inr (spec_insert_at (nat j) y xs)"
  by (simp add: list_insert_def spec_insert_at_take_drop)

lemma list_pop_map:
  "list_pop (map f xs) i =
     (case list_pop xs i of Inl e \<Rightarrow> Inl e | Inr (x, rest) \<Rightarrow> Inr (f x, map f rest))"
  by (simp add: list_pop_def Let_def take_map drop_map)

lemma list_insert_map:
  "list_insert (map f xs) j (f y) =
     (case list_insert xs j y of Inl e \<Rightarrow> Inl e | Inr ys \<Rightarrow> Inr (map f ys))"
  by (simp add: list_insert_def Let_def take_map drop_map)

lemma set_without_nth:
  assumes "k < length xs"
  shows "insert (xs ! k) (set (take k xs @ drop (Suc k) xs)) = set xs"
proof -
  have "set xs = set (take k xs @ xs ! k # drop (Suc k) xs)"
    by (rule arg_cong [where f = set, OF id_take_nth_drop [OF assms]])
  then show ?thesis by simp
qed

lemma distinct_without_nth:
  assumes "k < length xs" and "distinct (map f xs)"
  shows "distinct (map f (take k xs @ drop (Suc k) xs)) \<and>
         f (xs ! k) \<notin> f ` set (take k xs @ drop (Suc k) xs)"
proof -
  have "map f xs = map f (take k xs @ xs ! k # drop (Suc k) xs)"
    by (rule arg_cong [where f = "map f", OF id_take_nth_drop [OF assms(1)]])
  with assms(2) have "distinct (map f (take k xs @ xs ! k # drop (Suc k) xs))"
    by simp
  then show ?thesis by auto
qed

lemma list_pop_Inr:
  assumes "list_pop xs i = Inr (x, rest)"
  obtains k where "k < length xs" and "x = xs ! k" and "rest = take k xs @ drop (Suc k) xs"
proof -
  let ?k = "nat (if i < 0 then i + int (length xs) else i)"
  from assms have "?k < length xs \<and> x = xs ! ?k \<and> rest = take ?k xs @ drop (Suc ?k) xs"
    by (auto simp: list_pop_def Let_def split: if_splits)
  then show ?thesis using that by blast
qed

lemma list_insert_shape:
  assumes "list_insert xs j y = Inr ys"
  obtains k where "ys = take k xs @ y # drop k xs"
proof -
  let ?n = "int (length xs)"
  let ?w = "if j < 0 then j + ?n else j"
  let ?k = "nat (if ?w < 0 then 0 else if ?n < ?w then ?n else ?w)"
  from assms have "ys = take ?k xs @ y # drop ?k xs"
    by (simp add: list_insert_def Let_def split: if_splits)
  then show ?thesis by (rule that)
qed

lemma list_insert_Inl:
  "list_insert xs j y = Inl e \<Longrightarrow> e = OverflowError \<and> \<not> fits_ssize_t j"
  by (simp add: list_insert_def Let_def split: if_splits)

lemma list_insert_Inr_fits:
  "list_insert xs j y = Inr ys \<Longrightarrow> int (length xs) < 2 ^ 63 \<Longrightarrow> fits_ssize_t j"
  by (auto simp: list_insert_def Let_def fits_ssize_t_def split: if_splits)

lemma list_pop_Inl:
  "list_pop xs i = Inl e \<Longrightarrow>
   (i < - int (length xs) \<or> int (length xs) \<le> i)
   \<and> e = (if fits_ssize_t i then IndexError else OverflowError)"
  by (auto simp: list_pop_def Let_def split: if_splits)

lemma list_pop_Inr_range:
  "list_pop xs i = Inr p \<Longrightarrow> - int (length xs) \<le> i \<and> i < int (length xs)"
  by (auto simp: list_pop_def Let_def split: if_splits)

lemma select_columns_sublist:
  "distinct (map fst df) \<Longrightarrow> set cs \<subseteq> set df \<Longrightarrow> select_columns df (map fst cs) = Inr cs"
proof (induction cs)
  case Nil
  then show ?case by simp
next
  case (Cons c cs)
  obtain name vs where c: "c = (name, vs)" by (cases c)
  from Cons.prems c have m: "map_of df name = Some vs" by simp
  from Cons have r: "select_columns df (map fst cs) = Inr cs" by simp
  show ?case by (simp add: c m r)
qed


lemma distinct_insert_between:
  assumes "distinct (map f ys)" and "f y \<notin> f ` set ys"
  shows "distinct (map f (take k ys @ y # drop k ys))"
proof -
  have e: "map f (take k ys) @ map f (drop k ys) = map f ys"
    by (simp only: map_append [symmetric] append_take_drop_id)
  have "distinct (map f (take k ys) @ map f (drop k ys))"
    using assms(1) by (simp only: e)
  then have parts: "distinct (map f (take k ys))" "distinct (map f (drop k ys))"
    "set (map f (take k ys)) \<inter> set (map f (drop k ys)) = {}"
    by (simp_all only: distinct_append)
  have "f y \<notin> set (map f (take k ys))" "f y \<notin> set (map f (drop k ys))"
    using assms(2) by (auto dest: in_set_takeD in_set_dropD)
  with parts show ?thesis by auto
qed

lemma set_insert_between: "set (take k ys @ y # drop k ys) = insert y (set ys)"
proof -
  have u: "set (take k ys) \<union> set (drop k ys) = set ys"
    by (simp only: set_append [symmetric] append_take_drop_id)
  have "set (take k ys @ y # drop k ys) = insert y (set (take k ys) \<union> set (drop k ys))"
    by simp
  then show ?thesis by (simp only: u)
qed

lemma move_col_frame:
  assumes wf: "wf_frame df" and pop: "list_pop df i = Inr (c, rest)"
    and ins: "list_insert rest j c = Inr cols"
  shows "move_col df i j = Inr cols
         \<and> wf_frame cols
         \<and> set cols = set df
         \<and> length cols = length df"
proof -
  from pop obtain k where k: "k < length df" and c: "c = df ! k"
    and rest: "rest = take k df @ drop (Suc k) df"
    by (rule list_pop_Inr)
  from wf have d: "distinct (map fst df)" by (simp add: wf_frame_def columns_def)
  have s: "insert c (set rest) = set df"
    unfolding c rest using k by (rule set_without_nth)
  have dr: "distinct (map fst rest)" and nr: "fst c \<notin> fst ` set rest"
    unfolding c rest using distinct_without_nth [OF k d] by simp_all
  have len_rest: "length rest = length df - 1"
    unfolding rest using k by simp
  from ins obtain k' where cols: "cols = take k' rest @ c # drop k' rest"
    by (rule list_insert_shape)
  have dI: "distinct (map fst cols)"
    unfolding cols using dr nr by (rule distinct_insert_between)
  have sI: "set cols = set df"
    unfolding cols by (simp only: set_insert_between s)
  have lI: "length cols = length df"
    unfolding cols using len_rest k by simp
  have popc: "list_pop (columns df) i = Inr (fst c, map fst rest)"
    by (simp add: columns_def list_pop_map pop)
  have insc: "list_insert (map fst rest) j (fst c) = Inr (map fst cols)"
    by (simp add: list_insert_map ins)
  have "move_col df i j = select df (map fst cols)"
    by (simp add: move_col_def popc insc)
  also have "\<dots> = select_columns df (map fst cols)"
    using dI by (simp add: select_def)
  also have "\<dots> = Inr cols"
    using d sI by (intro select_columns_sublist) simp_all
  finally show ?thesis using dI sI lI by (simp add: wf_frame_def columns_def)
qed

lemma length_spec_remove_at:
  "i < length xs \<Longrightarrow> length (spec_remove_at i xs) = length xs - 1"
  by (simp add: spec_remove_at_take_drop)

lemma move_col_valid:
  assumes wf: "wf_frame df"
    and i: "0 \<le> i" "i < int (length df)"
    and j: "0 \<le> j" "j < int (length df)"
  shows "move_col df i j
           = Inr (spec_insert_at (nat j) (df ! nat i) (spec_remove_at (nat i) df))
         \<and> wf_frame (spec_insert_at (nat j) (df ! nat i) (spec_remove_at (nat i) df))
         \<and> set (spec_insert_at (nat j) (df ! nat i) (spec_remove_at (nat i) df)) = set df
         \<and> length (spec_insert_at (nat j) (df ! nat i) (spec_remove_at (nat i) df))
             = length df"
proof -
  have pop: "list_pop df i = Inr (df ! nat i, spec_remove_at (nat i) df)"
    using i by (rule list_pop_valid)
  have "length (spec_remove_at (nat i) df) = length df - 1"
    using i by (simp add: length_spec_remove_at)
  with j have "j \<le> int (length (spec_remove_at (nat i) df))" by simp
  with j(1) have ins: "list_insert (spec_remove_at (nat i) df) j (df ! nat i)
      = Inr (spec_insert_at (nat j) (df ! nat i) (spec_remove_at (nat i) df))"
    by (rule list_insert_valid)
  from move_col_frame [OF wf pop ins] show ?thesis by simp
qed

lemma map_spec_remove_at: "map f (spec_remove_at i xs) = spec_remove_at i (map f xs)"
  by (induction i xs rule: spec_remove_at.induct) simp_all

lemma map_spec_insert_at: "map f (spec_insert_at j y xs) = spec_insert_at j (f y) (map f xs)"
  by (induction j y xs rule: spec_insert_at.induct) simp_all

lemma spec_insert_at_nth: "j \<le> length ys \<Longrightarrow> spec_insert_at j y ys ! j = y"
  by (induction j y ys rule: spec_insert_at.induct) simp_all

lemma spec_remove_insert: "j \<le> length ys \<Longrightarrow> spec_remove_at j (spec_insert_at j y ys) = ys"
  by (induction j y ys rule: spec_insert_at.induct) simp_all

lemma spec_insert_remove: "i < length xs \<Longrightarrow> spec_insert_at i (xs ! i) (spec_remove_at i xs) = xs"
  by (induction i xs rule: spec_remove_at.induct) simp_all

section \<open>Adding columns\<close>

lemma map_of_upsert: "map_of (upsert name v al) = (map_of al)(name \<mapsto> v)"
  by (induction al) (auto simp: fun_eq_iff)

lemma keys_upsert:
  "map fst (upsert name v al)
     = (if name \<in> set (map fst al) then map fst al else map fst al @ [name])"
  by (induction al) (force split: if_splits)+

lemma with_columns_single: "with_columns df [(name, vs)] = upsert name vs df"
  by (simp add: with_columns_def)

lemma get_column_upsert:
  "get_column (upsert name vs df) n = (if n = name then Inr vs else get_column df n)"
  by (simp add: get_column_def map_of_upsert)

lemma columns_upsert:
  "columns (upsert name vs df)
     = (if name \<in> set (columns df) then columns df else columns df @ [name])"
  by (simp add: columns_def keys_upsert)

lemma distinct_keys_upsert: "distinct (map fst al) \<Longrightarrow> distinct (map fst (upsert name v al))"
  by (simp add: keys_upsert)

lemma distinct_keys_fold_upsert:
  "distinct (map fst acc) \<Longrightarrow>
   distinct (map fst (fold (\<lambda>i. upsert (names ! i) (col i)) idxs acc))"
  by (induction idxs arbitrary: acc) (simp_all add: distinct_keys_upsert)

lemma map_of_fold_upsert:
  assumes "distinct names" and "k < length names"
  shows "\<forall>i\<in>set idxs. i < length names \<Longrightarrow>
         map_of (fold (\<lambda>i. upsert (names ! i) (col i)) idxs acc) (names ! k)
           = (if k \<in> set idxs then Some (col k) else map_of acc (names ! k))"
proof (induction idxs arbitrary: acc)
  case Nil
  then show ?case by simp
next
  case (Cons i idxs)
  from Cons.prems have i: "i < length names" by simp
  have eq: "(names ! i = names ! k) = (i = k)"
    using assms i by (simp add: nth_eq_iff_index_eq)
  from Cons.prems have "\<forall>i\<in>set idxs. i < length names" by simp
  then have "map_of (fold (\<lambda>i. upsert (names ! i) (col i)) idxs (upsert (names ! i) (col i) acc)) (names ! k)
      = (if k \<in> set idxs then Some (col k)
         else map_of (upsert (names ! i) (col i) acc) (names ! k))"
    by (rule Cons.IH)
  then show ?case using eq by (auto simp: map_of_upsert)
qed

lemma map_of_with_columns:
  "distinct (map fst new) \<Longrightarrow>
   map_of (with_columns df new) n
     = (case map_of new n of Some vs \<Rightarrow> Some vs | None \<Rightarrow> map_of df n)"
proof (induction new arbitrary: df)
  case Nil
  then show ?case by (simp add: with_columns_def)
next
  case (Cons c new)
  obtain name vs where c: "c = (name, vs)" by (cases c)
  from Cons.prems c have d: "distinct (map fst new)" and nin: "name \<notin> fst ` set new"
    by simp_all
  from nin have none: "map_of new name = None" by (simp add: map_of_eq_None_iff)
  have "with_columns df (c # new) = with_columns (upsert name vs df) new"
    by (simp add: with_columns_def c)
  then have "map_of (with_columns df (c # new)) n
      = (case map_of new n of Some vs \<Rightarrow> Some vs | None \<Rightarrow> map_of (upsert name vs df) n)"
    using Cons.IH [OF d] by simp
  then show ?case using none by (auto simp: c map_of_upsert split: option.splits)
qed

section \<open>Indexing the results of the function\<close>

lemma getitem_seq:
  "is_seq r \<Longrightarrow>
   getitem r i = (if i < length (seq_items r) then Inr (seq_items r ! i) else Inl IndexError)"
  by (cases r) simp_all

lemma getitems_all:
  "\<forall>r\<in>set rs. is_seq r \<and> i < length (seq_items r) \<Longrightarrow>
   getitems rs i = Inr (map (\<lambda>r. seq_items r ! i) rs)"
  by (induction rs) (simp_all add: getitem_seq)

lemma getitems_short:
  "\<forall>r\<in>set rs. is_seq r \<Longrightarrow> \<exists>r\<in>set rs. length (seq_items r) \<le> i \<Longrightarrow>
   getitems rs i = Inl IndexError"
proof (induction rs)
  case Nil
  then show ?case by simp
next
  case (Cons r rs)
  show ?case
  proof (cases "i < length (seq_items r)")
    case True
    with Cons.prems have "\<exists>r\<in>set rs. length (seq_items r) \<le> i" by auto
    with Cons have "getitems rs i = Inl IndexError" by simp
    with True Cons.prems show ?thesis by (simp add: getitem_seq)
  next
    case False
    with Cons.prems show ?thesis by (simp add: getitem_seq)
  qed
qed

lemma new_columns_all:
  "\<forall>r\<in>set rs. is_seq r \<Longrightarrow> \<forall>i\<in>set idxs. \<forall>r\<in>set rs. i < length (seq_items r) \<Longrightarrow>
   new_columns names rs idxs acc
     = Inr (fold (\<lambda>i. upsert (names ! i) (map (\<lambda>r. seq_items r ! i) rs)) idxs acc)"
proof (induction idxs arbitrary: acc)
  case Nil
  then show ?case by simp
next
  case (Cons i idxs)
  from Cons.prems have "getitems rs i = Inr (map (\<lambda>r. seq_items r ! i) rs)"
    by (intro getitems_all) simp
  moreover from Cons have "new_columns names rs idxs (upsert (names ! i) (map (\<lambda>r. seq_items r ! i) rs) acc)
     = Inr (fold (\<lambda>i. upsert (names ! i) (map (\<lambda>r. seq_items r ! i) rs)) idxs
              (upsert (names ! i) (map (\<lambda>r. seq_items r ! i) rs) acc))"
    by simp
  ultimately show ?case by simp
qed

lemma new_columns_short:
  "\<forall>r\<in>set rs. is_seq r \<Longrightarrow> \<exists>i\<in>set idxs. \<exists>r\<in>set rs. length (seq_items r) \<le> i \<Longrightarrow>
   new_columns names rs idxs acc = Inl IndexError"
proof (induction idxs arbitrary: acc)
  case Nil
  then show ?case by simp
next
  case (Cons i idxs)
  show ?case
  proof (cases "\<exists>r\<in>set rs. length (seq_items r) \<le> i")
    case True
    with Cons.prems(1) have "getitems rs i = Inl IndexError" by (rule getitems_short)
    then show ?thesis by simp
  next
    case False
    then have "\<forall>r\<in>set rs. is_seq r \<and> i < length (seq_items r)"
      using Cons.prems(1) by auto
    then have g: "getitems rs i = Inr (map (\<lambda>r. seq_items r ! i) rs)" by (rule getitems_all)
    from False Cons.prems(2) have "\<exists>i\<in>set idxs. \<exists>r\<in>set rs. length (seq_items r) \<le> i"
      by auto
    with Cons.IH Cons.prems(1) have "new_columns names rs idxs
        (upsert (names ! i) (map (\<lambda>r. seq_items r ! i) rs) acc) = Inl IndexError"
      by blast
    with g show ?thesis by simp
  qed
qed

section \<open>Properties of the column mover\<close>

text \<open>
  C1. For a frame with distinct column names (every polars frame) and indices
  \<open>0 \<le> from_index < N\<close>, \<open>0 \<le> to_index < N\<close>, where \<open>N\<close> is the number of columns,
  \<^verbatim>\<open>move_col\<close> returns a frame whose column order is the original order with the
  name at \<open>from_index\<close> removed and then inserted at position \<open>to_index\<close> of the
  remaining \<open>N - 1\<close> names, and in which every column name has the data it had.
  The witness is the specification's two examples on the columns A, B, C, D.
\<close>

theorem move_col_order:
  assumes wf: "wf_frame F"
    and i: "0 \<le> from_index" "from_index < int (length (columns F))"
    and j: "0 \<le> to_index" "to_index < int (length (columns F))"
  shows "\<exists>G. move_col F from_index to_index = Inr G
           \<and> columns G = spec_insert_at (nat to_index) (columns F ! nat from_index)
                            (spec_remove_at (nat from_index) (columns F))
           \<and> (\<forall>name. get_column G name = get_column F name)"
proof -
  let ?G = "spec_insert_at (nat to_index) (F ! nat from_index) (spec_remove_at (nat from_index) F)"
  from i j have i': "from_index < int (length F)" and j': "to_index < int (length F)"
    by (simp_all add: columns_def)
  from move_col_valid [OF wf i(1) i' j(1) j']
  have mv: "move_col F from_index to_index = Inr ?G"
    and wfG: "wf_frame ?G" and setG: "set ?G = set F" by simp_all
  have cols: "columns ?G = spec_insert_at (nat to_index) (columns F ! nat from_index)
                            (spec_remove_at (nat from_index) (columns F))"
    using i(1) i' by (simp add: columns_def map_spec_insert_at map_spec_remove_at)
  have "map_of ?G = map_of F"
    using wfG wf setG by (simp add: wf_frame_def columns_def map_of_inject_set)
  then have "\<forall>name. get_column ?G name = get_column F name"
    by (simp add: get_column_def)
  with mv cols show ?thesis by blast
qed

theorem move_col_order_witness:
  "(\<exists>G. move_col frame_abcd 0 2 = Inr G \<and> columns G = [''B'', ''C'', ''A'', ''D'']
        \<and> (\<forall>name. get_column G name = get_column frame_abcd name))
   \<and> (\<exists>G. move_col frame_abcd 3 0 = Inr G \<and> columns G = [''D'', ''A'', ''B'', ''C'']
        \<and> (\<forall>name. get_column G name = get_column frame_abcd name))"
proof -
  have wf: "wf_frame frame_abcd"
    by (simp add: wf_frame_def columns_def frame_abcd_def)
  have n: "int (length (columns frame_abcd)) = 4"
    by (simp add: columns_def frame_abcd_def)
  have c: "columns frame_abcd = [''A'', ''B'', ''C'', ''D'']"
    by (simp add: columns_def frame_abcd_def)
  have a: "spec_insert_at (nat 2) (columns frame_abcd ! nat 0) (spec_remove_at (nat 0) (columns frame_abcd))
             = [''B'', ''C'', ''A'', ''D'']"
    by (simp add: c eval_nat_numeral)
  have b: "spec_insert_at (nat 0) (columns frame_abcd ! nat 3) (spec_remove_at (nat 3) (columns frame_abcd))
             = [''D'', ''A'', ''B'', ''C'']"
    by (simp add: c eval_nat_numeral)
  from move_col_order [OF wf, of 0 2] n a
  have 1: "\<exists>G. move_col frame_abcd 0 2 = Inr G \<and> columns G = [''B'', ''C'', ''A'', ''D'']
        \<and> (\<forall>name. get_column G name = get_column frame_abcd name)" by simp
  from move_col_order [OF wf, of 3 0] n b
  have 2: "\<exists>G. move_col frame_abcd 3 0 = Inr G \<and> columns G = [''D'', ''A'', ''B'', ''C'']
        \<and> (\<forall>name. get_column G name = get_column frame_abcd name)" by simp
  from 1 2 show ?thesis by (rule conjI)
qed

text \<open>
  C9. For valid indices \<open>i\<close> and \<open>j\<close>, moving a column from \<open>i\<close> to \<open>j\<close> and then from
  \<open>j\<close> to \<open>i\<close> gives back the frame itself: the same columns in the same order. The
  proof does not need \<open>i \<noteq> j\<close>, and makes no difference between adjacent and distant
  positions.
\<close>

theorem move_col_reverse:
  assumes wf: "wf_frame F"
    and i: "0 \<le> i" "i < int (length (columns F))"
    and j: "0 \<le> j" "j < int (length (columns F))"
  shows "\<exists>G. move_col F i j = Inr G \<and> move_col G j i = Inr F"
proof -
  let ?R = "spec_remove_at (nat i) F"
  let ?G = "spec_insert_at (nat j) (F ! nat i) ?R"
  from i j have i': "i < int (length F)" and j': "j < int (length F)"
    by (simp_all add: columns_def)
  from move_col_valid [OF wf i(1) i' j(1) j']
  have mv: "move_col F i j = Inr ?G"
    and wfG: "wf_frame ?G" and lenG: "length ?G = length F" by simp_all
  have lenR: "length ?R = length F - 1"
    using i(1) i' by (simp add: length_spec_remove_at)
  with j(1) j' have jR: "nat j \<le> length ?R" by simp
  have "move_col ?G j i = Inr (spec_insert_at (nat i) (?G ! nat j) (spec_remove_at (nat j) ?G))"
    using wfG j(1) j' i(1) i' by (intro move_col_valid [THEN conjunct1]) (simp_all add: lenG)
  also have "?G ! nat j = F ! nat i"
    using jR by (rule spec_insert_at_nth)
  also have "spec_remove_at (nat j) ?G = ?R"
    using jR by (rule spec_remove_insert)
  also have "spec_insert_at (nat i) (F ! nat i) ?R = F"
    using i(1) i' by (intro spec_insert_remove) simp
  finally have "move_col ?G j i = Inr F" .
  with mv show ?thesis by blast
qed

theorem move_col_reverse_witness:
  "\<exists>G. move_col frame_abcd 1 3 = Inr G \<and> move_col G 3 1 = Inr frame_abcd"
proof -
  have wf: "wf_frame frame_abcd"
    by (simp add: wf_frame_def columns_def frame_abcd_def)
  have n: "int (length (columns frame_abcd)) = 4"
    by (simp add: columns_def frame_abcd_def)
  from move_col_reverse [OF wf, of 1 3] n show ?thesis by simp
qed

text \<open>
  C4, as the code has it. \<^verbatim>\<open>move_col\<close> has no range check of its own; what it raises
  is what \<^verbatim>\<open>list.pop\<close> and \<^verbatim>\<open>list.insert\<close> raise. For a frame of \<open>N\<close> columns (fewer
  than \<open>2 ^ 63\<close>, as in every Python list) it fails with \<open>IndexError\<close> exactly when
  \<open>from_index\<close> fits a machine index and \<open>from_index < -N\<close> or \<open>from_index \<ge> N\<close>; it
  fails with \<open>OverflowError\<close> exactly when \<open>from_index\<close> does not fit a machine index,
  or \<open>from_index\<close> is inside \<open>-N \<le> from_index < N\<close> and \<open>to_index\<close> does not fit; and it
  returns a frame in every other case, that is for \<open>-N \<le> from_index < N\<close> and every
  \<open>to_index\<close> that fits: a negative \<open>from_index\<close> counts from the end, and
  \<^verbatim>\<open>list.insert\<close> clamps \<open>to_index\<close>. The witness has the specification's example,
  \<open>from_index = 5\<close> on four columns.
\<close>

theorem move_col_index_error:
  assumes wf: "wf_frame F" and small: "int (length (columns F)) < 2 ^ 63"
  shows "(move_col F from_index to_index = Inl IndexError)
           = (fits_ssize_t from_index
              \<and> (from_index < - int (length (columns F))
                 \<or> int (length (columns F)) \<le> from_index))
         \<and> (move_col F from_index to_index = Inl OverflowError)
           = (\<not> fits_ssize_t from_index
              \<or> (- int (length (columns F)) \<le> from_index
                 \<and> from_index < int (length (columns F))
                 \<and> \<not> fits_ssize_t to_index))
         \<and> (\<exists>G. move_col F from_index to_index = Inr G)
           = (- int (length (columns F)) \<le> from_index
              \<and> from_index < int (length (columns F))
              \<and> fits_ssize_t to_index)"
proof -
  from small have n: "int (length F) < 2 ^ 63" by (simp add: columns_def)
  have in_fits: "fits_ssize_t from_index"
    if "- int (length F) \<le> from_index" "from_index < int (length F)"
    using that n by (simp add: fits_ssize_t_def)
  show ?thesis
  proof (cases "list_pop F from_index")
    case (Inl e)
    from list_pop_Inl [OF Inl]
    have out: "from_index < - int (length F) \<or> int (length F) \<le> from_index"
      and e: "e = (if fits_ssize_t from_index then IndexError else OverflowError)"
      by simp_all
    from Inl have "move_col F from_index to_index = Inl e"
      by (simp add: move_col_def columns_def list_pop_map)
    with out e show ?thesis by (auto simp: columns_def)
  next
    case (Inr p)
    obtain c rest where p: "p = (c, rest)" by (cases p)
    from Inr p have pop: "list_pop F from_index = Inr (c, rest)" by simp
    from list_pop_Inr_range [OF pop]
    have inr: "- int (length F) \<le> from_index" "from_index < int (length F)" by simp_all
    with in_fits have fi: "fits_ssize_t from_index" by simp
    from pop obtain k where "k < length F" and "rest = take k F @ drop (Suc k) F"
      by (rule list_pop_Inr)
    then have "length rest \<le> length F" by simp
    with n have nrest: "int (length rest) < 2 ^ 63" by simp
    show ?thesis
    proof (cases "list_insert rest to_index c")
      case (Inl e)
      from list_insert_Inl [OF Inl]
      have e: "e = OverflowError" and nf: "\<not> fits_ssize_t to_index" by simp_all
      have "move_col F from_index to_index = Inl OverflowError"
        by (simp add: move_col_def columns_def list_pop_map pop list_insert_map Inl e)
      with inr fi nf show ?thesis by (simp add: columns_def)
    next
      case (Inr cols)
      from list_insert_Inr_fits [OF Inr nrest] have fj: "fits_ssize_t to_index" .
      from move_col_frame [OF wf pop Inr]
      have "move_col F from_index to_index = Inr cols" by simp
      with inr fi fj show ?thesis by (simp add: columns_def)
    qed
  qed
qed

theorem move_col_index_error_witness:
  "move_col frame_abcd 5 0 = Inl IndexError
   \<and> (\<exists>G. move_col frame_abcd (- 1) 9 = Inr G)
   \<and> move_col frame_abcd (2 ^ 63) 0 = Inl OverflowError
   \<and> move_col frame_abcd 0 (2 ^ 63) = Inl OverflowError"
proof -
  have wf: "wf_frame frame_abcd"
    by (simp add: wf_frame_def columns_def frame_abcd_def)
  have n: "int (length (columns frame_abcd)) = 4"
    by (simp add: columns_def frame_abcd_def)
  have small: "int (length (columns frame_abcd)) < 2 ^ 63"
    by (simp add: n)
  note t = move_col_index_error [OF wf small]
  from t [of 5 0] have 1: "move_col frame_abcd 5 0 = Inl IndexError"
    by (simp add: n fits_ssize_t_def)
  from t [of "- 1" 9] have 2: "\<exists>G. move_col frame_abcd (- 1) 9 = Inr G"
    by (simp add: n fits_ssize_t_def)
  from t [of "2 ^ 63" 0] have 3: "move_col frame_abcd (2 ^ 63) 0 = Inl OverflowError"
    by (simp add: n fits_ssize_t_def)
  from t [of 0 "2 ^ 63"] have 4: "move_col frame_abcd 0 (2 ^ 63) = Inl OverflowError"
    by (simp add: n fits_ssize_t_def)
  from 1 2 3 4 show ?thesis by simp
qed

text \<open>
  C4 as stated fails: on four columns, \<open>from_index = -1\<close> is outside \<open>0 \<le> index < 4\<close>
  and moves the last column to the front, and \<open>to_index = 7\<close> is outside it and moves
  the first column to the end; neither call raises.
\<close>

theorem move_col_no_range_check_counterexample:
  "move_col frame_abcd (- 1) 0
     = Inr [(''D'', [PInt 7, PInt 8]), (''A'', [PInt 1, PInt 2]),
            (''B'', [PStr ''x'', PStr ''y'']), (''C'', [PNone, PInt 0])]
   \<and> move_col frame_abcd 0 7
     = Inr [(''B'', [PStr ''x'', PStr ''y'']), (''C'', [PNone, PInt 0]),
            (''D'', [PInt 7, PInt 8]), (''A'', [PInt 1, PInt 2])]"
  by (simp add: move_col_def frame_abcd_def columns_def list_pop_def list_insert_def
        fits_ssize_t_def select_def Let_def)

section \<open>Properties of the column mapper\<close>

text \<open>
  C2, as the code has it. When the frame has the column \<open>a\<close>, of some type \<open>s\<close>, the
  keys of the dictionary \<open>D\<close> are of type \<open>s\<close>, and the values of \<open>D\<close> and the default
  \<open>d\<close> are of one type \<open>t\<close>, mapping \<open>a\<close> into \<open>b\<close> returns a frame whose column \<open>b\<close> is
  of type \<open>t\<close> and has as many rows as \<open>a\<close>, row \<open>i\<close> being \<open>D[a[i]]\<close> where that key is
  present and \<open>d\<close> otherwise. Every column with another name is unchanged. The column
  names keep their order; \<open>b\<close> is appended at the end when the frame had no column
  \<open>b\<close>, and otherwise overwritten where it stands.
\<close>

theorem map_col_dict_column:
  assumes a: "get_column F a = Inr vs"
    and col: "list_all (has_dtype s) vs"
    and entries: "\<forall>x y. D x = Some y \<longrightarrow> has_dtype s x \<and> has_dtype t y"
    and dflt: "has_dtype t d"
  shows "\<exists>G bs. map_col F (Str a) (Str b) (Dict D) d = Inr (Some G)
           \<and> get_column G b = Inr bs
           \<and> list_all (has_dtype t) bs
           \<and> length bs = length vs
           \<and> (\<forall>i<length vs. bs ! i = (case D (vs ! i) of Some y \<Rightarrow> y | None \<Rightarrow> d))
           \<and> (\<forall>name. name \<noteq> b \<longrightarrow> get_column G name = get_column F name)
           \<and> columns G = (if b \<in> set (columns F) then columns F else columns F @ [b])"
proof -
  let ?bs = "map_dict D d vs"
  let ?G = "upsert b ?bs F"
  have r: "map_col F (Str a) (Str b) (Dict D) d = Inr (Some ?G)"
    by (simp add: map_col_def map_col_dict_def expr_alias_def a returned_def
          with_columns_single)
  have g: "get_column ?G b = Inr ?bs" by (simp add: get_column_upsert)
  have ty: "list_all (has_dtype t) ?bs"
    using entries dflt by (auto simp: map_dict_def list_all_iff split: option.splits)
  have l: "length ?bs = length vs" by (simp add: map_dict_def)
  have v: "\<forall>i<length vs. ?bs ! i = (case D (vs ! i) of Some y \<Rightarrow> y | None \<Rightarrow> d)"
    by (simp add: map_dict_def)
  have o: "\<forall>name. name \<noteq> b \<longrightarrow> get_column ?G name = get_column F name"
    by (simp add: get_column_upsert)
  have c: "columns ?G = (if b \<in> set (columns F) then columns F else columns F @ [b])"
    by (rule columns_upsert)
  from r g ty l v o c show ?thesis by blast
qed

theorem map_col_dict_column_witness:
  "\<exists>G bs. map_col frame_abcd (Str ''A'') (Str ''E'') (Dict dict_example) (PStr ''other'')
             = Inr (Some G)
      \<and> get_column G ''E'' = Inr bs
      \<and> bs = [PStr ''one'', PStr ''other'']
      \<and> (\<forall>name. name \<noteq> ''E'' \<longrightarrow> get_column G name = get_column frame_abcd name)
      \<and> columns G = [''A'', ''B'', ''C'', ''D'', ''E'']"
proof -
  have a: "get_column frame_abcd ''A'' = Inr [PInt 1, PInt 2]"
    by (simp add: get_column_def frame_abcd_def)
  have col: "list_all (has_dtype Int64) [PInt 1, PInt 2]"
    by simp
  have entries: "\<forall>x y. dict_example x = Some y \<longrightarrow> has_dtype Int64 x \<and> has_dtype Utf8 y"
    by (auto simp: dict_example_def split: if_splits)
  have dflt: "has_dtype Utf8 (PStr ''other'')"
    by simp
  have c: "columns frame_abcd = [''A'', ''B'', ''C'', ''D'']"
    by (simp add: columns_def frame_abcd_def)
  from map_col_dict_column [OF a col entries dflt, of "''E''"]
  obtain G bs where
    r: "map_col frame_abcd (Str ''A'') (Str ''E'') (Dict dict_example) (PStr ''other'')
          = Inr (Some G)"
    and g: "get_column G ''E'' = Inr bs"
    and l: "length bs = length [PInt 1, PInt 2 :: pyval]"
    and v: "\<forall>i<length [PInt 1, PInt 2 :: pyval]. bs ! i
              = (case dict_example ([PInt 1, PInt 2] ! i) of Some y \<Rightarrow> y | None \<Rightarrow> PStr ''other'')"
    and o: "\<forall>name. name \<noteq> ''E'' \<longrightarrow> get_column G name = get_column frame_abcd name"
    and cs: "columns G = (if ''E'' \<in> set (columns frame_abcd) then columns frame_abcd
                          else columns frame_abcd @ [''E''])"
    by blast
  from v have "bs ! 0 = PStr ''one''" "bs ! 1 = PStr ''other''"
    by (simp_all add: dict_example_def)
  with l have b: "bs = [PStr ''one'', PStr ''other'']"
    by (cases bs; cases "tl bs"; cases "tl (tl bs)") auto
  from cs have cs': "columns G = [''A'', ''B'', ''C'', ''D'', ''E'']"
    by (simp add: c)
  from r g b o cs' show ?thesis by blast
qed

text \<open>
  C2 as stated fails where it puts an overwritten \<open>b\<close> at the end: in a frame with the
  columns \<open>b, a\<close> the result has the columns \<open>b, a\<close>, with the new values in the first
  column. The keys are integers like the column \<open>a\<close>, and the new column holds a string
  and a null.
\<close>

theorem map_col_dict_overwrite_counterexample:
  "map_col frame_ba (Str ''a'') (Str ''b'') (Dict dict_example) PNone
     = Inr (Some [(''b'', [PStr ''one'', PNone]), (''a'', [PInt 1, PInt 2])])"
  by (simp add: map_col_def map_col_dict_def expr_alias_def get_column_def frame_ba_def
        returned_def with_columns_def map_dict_def dict_example_def)

text \<open>
  C10, as the code has it. When the frame has the column \<open>a\<close> and the results of \<open>f\<close> on
  the values of \<open>a\<close> that are not null are of one type \<open>t\<close> (integers within 64 bits),
  mapping \<open>a\<close> with \<open>f\<close> into \<open>b\<close> returns a frame whose column \<open>b\<close> is of type \<open>t\<close> and
  has as many rows as \<open>a\<close>, with \<open>b[i] = f(a[i])\<close> in every row whose \<open>a[i]\<close> is not null;
  a row whose \<open>a[i]\<close> is null is null in \<open>b\<close>, because \<^verbatim>\<open>apply\<close> does not call \<open>f\<close> on a
  null.
\<close>

theorem map_col_1to1_column:
  assumes a: "get_column F a = Inr vs"
    and results: "\<forall>v\<in>set vs. v \<noteq> PNone \<longrightarrow> has_dtype t (f v)"
  shows "\<exists>G bs. map_col F (Str a) (Str b) (Callable f) d = Inr (Some G)
           \<and> get_column G b = Inr bs
           \<and> list_all (has_dtype t) bs
           \<and> length bs = length vs
           \<and> (\<forall>i<length vs. bs ! i = (if vs ! i = PNone then PNone else f (vs ! i)))"
proof -
  let ?bs = "map_elements f vs"
  let ?G = "upsert b ?bs F"
  have r: "map_col F (Str a) (Str b) (Callable f) d = Inr (Some ?G)"
    by (simp add: map_col_def map_1to1_function_def a returned_def with_columns_single)
  have g: "get_column ?G b = Inr ?bs" by (simp add: get_column_upsert)
  have ty: "list_all (has_dtype t) ?bs"
    using results by (auto simp: map_elements_def list_all_iff)
  have l: "length ?bs = length vs" by (simp add: map_elements_def)
  have v: "\<forall>i<length vs. ?bs ! i = (if vs ! i = PNone then PNone else f (vs ! i))"
    by (simp add: map_elements_def)
  from r g ty l v show ?thesis by blast
qed

theorem map_col_1to1_column_witness:
  "\<exists>G bs. map_col frame_abcd (Str ''A'') (Str ''E'') (Callable const_zero) PNone = Inr (Some G)
      \<and> get_column G ''E'' = Inr bs
      \<and> length bs = 2
      \<and> bs ! 0 = const_zero (PInt 1) \<and> bs ! 1 = const_zero (PInt 2)"
proof -
  have a: "get_column frame_abcd ''A'' = Inr [PInt 1, PInt 2]"
    by (simp add: get_column_def frame_abcd_def)
  have results: "\<forall>v\<in>set [PInt 1, PInt 2]. v \<noteq> PNone \<longrightarrow> has_dtype Int64 (const_zero v)"
    by simp
  from map_col_1to1_column [OF a results, of "''E''" PNone]
  obtain G bs where
    r: "map_col frame_abcd (Str ''A'') (Str ''E'') (Callable const_zero) PNone = Inr (Some G)"
    and g: "get_column G ''E'' = Inr bs"
    and l: "length bs = length [PInt 1, PInt 2 :: pyval]"
    and v: "\<forall>i<length [PInt 1, PInt 2 :: pyval]. bs ! i
              = (if [PInt 1, PInt 2] ! i = PNone then PNone else const_zero ([PInt 1, PInt 2] ! i))"
    by blast
  from v have "bs ! 0 = const_zero (PInt 1)" "bs ! 1 = const_zero (PInt 2)"
    by simp_all
  with r g l show ?thesis by auto
qed

text \<open>
  C10 as stated fails on a null: with \<open>a = [1, None]\<close> and \<open>f\<close> the function that is
  \<open>0\<close> everywhere, \<open>f(None) = 0\<close> but the second row of \<open>b\<close> is null. The new column
  holds an integer and a null.
\<close>

theorem map_col_1to1_null_counterexample:
  "map_col frame_null (Str ''a'') (Str ''b'') (Callable const_zero) PNone
     = Inr (Some [(''a'', [PInt 1, PNone]), (''b'', [PInt 0, PNone])])
   \<and> const_zero PNone = PInt 0"
  by (simp add: map_col_def map_1to1_function_def get_column_def frame_null_def
        returned_def with_columns_def map_elements_def)

text \<open>
  C3, as the code has it. The 1-to-N mode has no check of the length of a result; it
  reads \<^verbatim>\<open>res[i]\<close> for \<open>i < N\<close>. When the frame has the column \<open>a\<close> and every row's
  result is a sequence, all of them with elements of one type \<open>t\<close>: if some row's
  sequence is shorter than \<open>N\<close> the call raises an exception, that of the subscript
  past the end, and returns no frame; if every row's sequence has at least \<open>N\<close>
  elements the call returns a frame in which (for distinct target names) target column
  \<open>k\<close> holds element \<open>k\<close> of each row's result, so that elements from position \<open>N\<close> on
  are dropped.
\<close>

theorem map_col_1ton_result_length:
  assumes a: "get_column F a = Inr vs"
    and seqs: "\<forall>r\<in>set (map_elements f vs). is_seq r \<and> has_dtype (ListOf t) r"
  shows "((\<exists>r\<in>set (map_elements f vs). length (seq_items r) < length names)
            \<longrightarrow> (\<exists>e. map_col F (Str a) (StrList names) (Callable f) d = Inl e))
       \<and> ((\<forall>r\<in>set (map_elements f vs). length names \<le> length (seq_items r))
            \<longrightarrow> (\<exists>G. map_col F (Str a) (StrList names) (Callable f) d = Inr (Some G)
                  \<and> (distinct names \<longrightarrow>
                       (\<forall>k<length names. get_column G (names ! k)
                           = Inr (map (\<lambda>r. seq_items r ! k) (map_elements f vs))))))"
proof (intro conjI impI)
  let ?rs = "map_elements f vs"
  from seqs have sq: "\<forall>r\<in>set ?rs. is_seq r" by blast
  assume "\<exists>r\<in>set ?rs. length (seq_items r) < length names"
  then obtain r where r: "r \<in> set ?rs" and short: "length (seq_items r) < length names"
    by blast
  from short have "length (seq_items r) \<in> set [0 ..< length names]" by simp
  with r have "\<exists>i\<in>set [0 ..< length names]. \<exists>r\<in>set ?rs. length (seq_items r) \<le> i"
    by blast
  with sq have "new_columns names ?rs [0 ..< length names] [] = Inl IndexError"
    by (rule new_columns_short)
  then have "map_col F (Str a) (StrList names) (Callable f) d = Inl IndexError"
    by (simp add: map_col_def map_1ton_function_def a returned_def)
  then show "\<exists>e. map_col F (Str a) (StrList names) (Callable f) d = Inl e" ..
next
  let ?rs = "map_elements f vs"
  let ?col = "\<lambda>i. map (\<lambda>r. seq_items r ! i) ?rs"
  let ?new = "fold (\<lambda>i. upsert (names ! i) (?col i)) [0 ..< length names] []"
  let ?G = "with_columns F ?new"
  from seqs have sq: "\<forall>r\<in>set ?rs. is_seq r" by blast
  assume long: "\<forall>r\<in>set ?rs. length names \<le> length (seq_items r)"
  then have "\<forall>i\<in>set [0 ..< length names]. \<forall>r\<in>set ?rs. i < length (seq_items r)"
    by auto
  with sq have "new_columns names ?rs [0 ..< length names] [] = Inr ?new"
    by (rule new_columns_all)
  then have res: "map_col F (Str a) (StrList names) (Callable f) d = Inr (Some ?G)"
    by (simp add: map_col_def map_1ton_function_def a returned_def)
  have dn: "distinct (map fst ?new)"
    by (rule distinct_keys_fold_upsert) simp
  have cols: "\<forall>k<length names. get_column ?G (names ! k) = Inr (?col k)" if d: "distinct names"
  proof (intro allI impI)
    fix k assume k: "k < length names"
    have "map_of ?new (names ! k) = Some (?col k)"
      using map_of_fold_upsert [OF d k, of "[0 ..< length names]" ?col "[]"] k by simp
    then have "map_of ?G (names ! k) = Some (?col k)"
      by (simp add: map_of_with_columns [OF dn])
    then show "get_column ?G (names ! k) = Inr (?col k)"
      by (simp add: get_column_def)
  qed
  from res cols
  show "\<exists>G. map_col F (Str a) (StrList names) (Callable f) d = Inr (Some G)
          \<and> (distinct names \<longrightarrow>
               (\<forall>k<length names. get_column G (names ! k) = Inr (?col k)))"
    by blast
qed

theorem map_col_1ton_result_length_witness:
  "(\<exists>e. map_col frame_abcd (Str ''A'') (StrList [''w'', ''x'', ''y'', ''z''])
          (Callable triple) PNone = Inl e)
   \<and> (\<exists>G. map_col frame_abcd (Str ''A'') (StrList [''y'', ''z'']) (Callable triple) PNone
            = Inr (Some G)
         \<and> get_column G ''y'' = Inr [PInt 1, PInt 2]
         \<and> get_column G ''z'' = Inr [PInt 1, PInt 2])"
proof -
  have a: "get_column frame_abcd ''A'' = Inr [PInt 1, PInt 2]"
    by (simp add: get_column_def frame_abcd_def)
  have rs: "map_elements triple [PInt 1, PInt 2]
              = [PSeq [PInt 1, PInt 1, PInt 1], PSeq [PInt 2, PInt 2, PInt 2]]"
    by (simp add: map_elements_def)
  have seqs: "\<forall>r\<in>set (map_elements triple [PInt 1, PInt 2]).
                is_seq r \<and> has_dtype (ListOf Int64) r"
    by (simp add: rs)
  note t = map_col_1ton_result_length [OF a seqs]
  from t [of "[''w'', ''x'', ''y'', ''z'']" PNone]
  have 1: "\<exists>e. map_col frame_abcd (Str ''A'') (StrList [''w'', ''x'', ''y'', ''z''])
             (Callable triple) PNone = Inl e"
    by (simp add: rs)
  from t [of "[''y'', ''z'']" PNone]
  obtain G where
    g: "map_col frame_abcd (Str ''A'') (StrList [''y'', ''z'']) (Callable triple) PNone
          = Inr (Some G)"
    and c: "\<forall>k<length [''y'', ''z'']. get_column G ([''y'', ''z''] ! k)
              = Inr (map (\<lambda>r. seq_items r ! k) (map_elements triple [PInt 1, PInt 2]))"
    by (auto simp: rs)
  from c [rule_format, of 0] c [rule_format, of 1]
  have "get_column G ''y'' = Inr [PInt 1, PInt 2]"
    "get_column G ''z'' = Inr [PInt 1, PInt 2]"
    by (simp_all add: rs)
  with 1 g show ?thesis by blast
qed

text \<open>
  C3 as stated fails for a result that is too long: with two target columns and a
  function that returns three integers for every row, the call returns a frame and
  says nothing of the third element.
\<close>

theorem map_col_1ton_truncates_counterexample:
  "map_col frame_abcd (Str ''A'') (StrList [''y'', ''z'']) (Callable triple) PNone
     = Inr (Some [(''A'', [PInt 1, PInt 2]), (''B'', [PStr ''x'', PStr ''y'']),
                  (''C'', [PNone, PInt 0]), (''D'', [PInt 7, PInt 8]),
                  (''y'', [PInt 1, PInt 2]), (''z'', [PInt 1, PInt 2])])"
  by (simp add: map_col_def map_1ton_function_def get_column_def frame_abcd_def
        returned_def with_columns_def map_elements_def upt_rec)

section \<open>Error paths of the dispatch\<close>

text \<open>
  C7. With a callable rule and both \<^verbatim>\<open>map_from\<close> and \<^verbatim>\<open>map_to\<close> lists, \<^verbatim>\<open>map_col\<close>
  raises \<open>NotImplementedError\<close>, whatever the frame, the function, the two lists of
  names (of any lengths M and N) and the default are; no frame is computed.
\<close>

theorem map_col_ntom_not_implemented:
  "map_col df (StrList col_names) (StrList new_col_names) (Callable function) default_v
     = Inl NotImplementedError"
  by (simp add: map_col_def map_ntom_function_def returned_def)

text \<open>
  C8. With a dictionary rule and \<^verbatim>\<open>map_from\<close> a list, \<^verbatim>\<open>map_col\<close> raises \<open>ValueError\<close>.
  The result does not depend on the frame, on \<^verbatim>\<open>map_to\<close>, on the dictionary or on the
  default: the check comes first and no row is read.
\<close>

theorem map_col_dict_list_source_value_error:
  "map_col df (StrList col_names) map_to (Dict dictionary) default_v = Inl ValueError"
  by (simp add: map_col_def)

text \<open>
  C5, as the code has it. When the rule is neither a dictionary nor callable,
  \<^verbatim>\<open>map_col\<close> takes no branch of its \<^verbatim>\<open>if\<close> chain: for every frame, \<^verbatim>\<open>map_from\<close>,
  \<^verbatim>\<open>map_to\<close> and default it raises nothing and returns \<^verbatim>\<open>None\<close> in place of a
  frame.
\<close>

theorem map_col_other_rule_returns_none:
  "map_col df map_from map_to OtherRule default_v = Inr None"
  by (simp add: map_col_def)

text \<open>C5 as stated fails: such a call returns normally, with \<^verbatim>\<open>None\<close>.\<close>

theorem map_col_other_rule_counterexample:
  "map_col frame_abcd (Str ''A'') (Str ''E'') OtherRule PNone = Inr None"
  by (simp add: map_col_def)

text \<open>
  C6, as the code has it. With a dictionary rule, \<^verbatim>\<open>map_from\<close> a single name and
  \<^verbatim>\<open>map_to\<close> a list, \<^verbatim>\<open>map_col\<close> makes no check of \<^verbatim>\<open>map_to\<close>: the list reaches
  \<^verbatim>\<open>alias\<close> of the frame library, which refuses it with \<open>TypeError\<close>. The call
  fails for every frame and produces no frame, but not with \<open>ValueError\<close>.
\<close>

theorem map_col_dict_list_target_type_error:
  "map_col df (Str col_name) (StrList new_col_names) (Dict dictionary) default_v
     = Inl TypeError"
  by (simp add: map_col_def map_col_dict_def expr_alias_def returned_def)

text \<open>C6 as stated fails: the error of such a call is \<open>TypeError\<close>, which is not
  \<open>ValueError\<close>.\<close>

theorem map_col_dict_list_target_counterexample:
  "map_col frame_abcd (Str ''A'') (StrList [''E'']) (Dict dict_example) PNone = Inl TypeError
   \<and> Inl TypeError \<noteq> (Inl ValueError :: error + frame option)"
  by (simp add: map_col_def map_col_dict_def expr_alias_def returned_def)

end
